theory Spec2Isabelle
  imports Main "HOL-Library.Word" "HOL-Library.Sublist"
begin

unbundle bit_operations_syntax

section \<open>The AFL LLVM-mode instrumentation pass\<close>

text \<open>
  A shallow embedding of \<^verbatim>\<open>llvm_mode/afl-llvm-pass.so.cc\<close>: the constructor
  \<^verbatim>\<open>AFLCoverage::AFLCoverage\<close>, which loads the whitelist, and
  \<^verbatim>\<open>AFLCoverage::runOnModule\<close>, which walks every basic block of every function and
  inserts the coverage sequence. The banner and the closing summary only print; they are
  left out, the count of instrumented blocks is kept.
\<close>

subsection \<open>Fatal errors\<close>

text \<open>
  \<^verbatim>\<open>report_fatal_error("Unable to open AFL_INST_WHITELIST")\<close> in the constructor and
  \<^verbatim>\<open>FATAL("Bad value of AFL_INST_RATIO (must be between 1 and 100)")\<close> in
  \<^verbatim>\<open>runOnModule\<close> both end the process; each is a value of this type.
\<close>

datatype error = UnableToOpenWhitelist | BadInstRatio

subsection \<open>The constructor: reading the whitelist\<close>

text \<open>
  The environment is a partial map from variable names to values (\<^verbatim>\<open>getenv\<close>), the file
  system a partial map from the paths that can be opened to their contents.
\<close>

type_synonym environment = "string \<rightharpoonup> string"
type_synonym filesystem = "string \<rightharpoonup> string"

text \<open>
  \<^verbatim>\<open>getline(fileStream, line)\<close> on the characters still unread: it takes characters up
  to the next newline, which it consumes and does not store, or up to the end of the file.
  When it can take nothing at all, not even a newline, it sets the fail bit: that is
  \<open>None\<close>. Otherwise the result is the line and the rest of the stream.
\<close>

definition getline :: "string \<Rightarrow> (string \<times> string) option" where
  "getline s =
     (if s = [] then None
      else Some (takeWhile (\<lambda>c. c \<noteq> CHR 0x0A) s, drop 1 (dropWhile (\<lambda>c. c \<noteq> CHR 0x0A) s)))"

text \<open>
  The loop of the constructor:
  \<^verbatim>\<open>getline(fileStream, line); while (fileStream) { myWhitelist.push_back(line); getline(fileStream, line); }\<close>
\<close>

function read_whitelist :: "string \<Rightarrow> string list \<Rightarrow> string list" where
  "read_whitelist s myWhitelist =
     (case getline s of
        None \<Rightarrow> myWhitelist
      | Some (line, rest) \<Rightarrow> read_whitelist rest (myWhitelist @ [line]))"
  by pat_completeness auto
termination
proof (relation "measure (\<lambda>(s, acc). length s)")
  show "wf (measure (\<lambda>(s, acc). length s))" by simp
next
  fix s :: string and myWhitelist :: "string list" and x2 line rest
  assume g: "getline s = Some x2" and x: "(line, rest) = x2"
  from g x have ne: "s \<noteq> []" and r: "rest = drop 1 (dropWhile (\<lambda>c. c \<noteq> CHR 0x0A) s)"
    by (auto simp: getline_def split: if_splits)
  have "length (dropWhile (\<lambda>c. c \<noteq> CHR 0x0A) s) \<le> length s"
    by (rule length_dropWhile_le)
  with ne r have "length rest < length s" by (cases s) auto
  then show "((rest, myWhitelist @ [line]), (s, myWhitelist)) \<in> measure (\<lambda>(s, acc). length s)"
    by simp
qed

declare read_whitelist.simps [simp del]

text \<open>The constructed pass object; its only member is \<^verbatim>\<open>myWhitelist\<close>.\<close>

record AFLCoverage_obj =
  myWhitelist :: "string list"

definition AFLCoverage :: "environment \<Rightarrow> filesystem \<Rightarrow> error + AFLCoverage_obj" where
  "AFLCoverage env fs =
     (case env ''AFL_INST_WHITELIST'' of
        None \<Rightarrow> Inr \<lparr>myWhitelist = []\<rparr>
      | Some instWhiteListFilename \<Rightarrow>
          (case fs instWhiteListFilename of
             None \<Rightarrow> Inl UnableToOpenWhitelist
           | Some content \<Rightarrow> Inr \<lparr>myWhitelist = read_whitelist content []\<rparr>))"

subsection \<open>The whitelist filter\<close>

text \<open>
  What the pass reads of a debug location: the location itself (\<^verbatim>\<open>cDILoc\<close>) and its
  original location (\<^verbatim>\<open>cDILoc.getOrigLocation()\<close>), each with a file name and a line.
  A block whose first insertion point has an unknown location (\<^verbatim>\<open>Loc.isUnknown()\<close>)
  carries \<open>None\<close>.
\<close>

record DILocation =
  getFilename :: string
  getLineNumber :: nat

record DebugLoc =
  cDILoc :: DILocation
  oDILoc :: DILocation

text \<open>
  The file name the pass settles on: that of the original location, or that of the actual
  location when the original one is empty.
\<close>

definition instFilename :: "DebugLoc \<Rightarrow> string" where
  "instFilename Loc =
     (if getFilename (oDILoc Loc) = [] then getFilename (cDILoc Loc)
      else getFilename (oDILoc Loc))"

text \<open>
  \<^verbatim>\<open>f.compare(f.length() - it.length(), it.length(), it) == 0\<close>, guarded by
  \<^verbatim>\<open>f.length() >= it.length()\<close>: the last \<open>length it\<close> characters of \<open>f\<close> are \<open>it\<close>.
\<close>

definition ends_in :: "string \<Rightarrow> string \<Rightarrow> bool" where
  "ends_in f it =
     (length f \<ge> length it \<and> take (length it) (drop (length f - length it) f) = it)"

text \<open>The loop over the whitelist, which stops at the first entry that matches.\<close>

fun whitelist_loop :: "string list \<Rightarrow> string \<Rightarrow> bool" where
  "whitelist_loop [] f = False"
| "whitelist_loop (it # its) f = (if ends_in f it then True else whitelist_loop its f)"

text \<open>
  The flag \<^verbatim>\<open>instrumentBlock\<close>, which starts as false and is set only inside the loop.
\<close>

definition instrumentBlock :: "string list \<Rightarrow> DebugLoc option \<Rightarrow> bool" where
  "instrumentBlock wl Loc =
     (case Loc of
        None \<Rightarrow> False
      | Some l \<Rightarrow> (if instFilename l \<noteq> [] then whitelist_loop wl (instFilename l) else False))"

text \<open>
  The whole filter: with an empty whitelist the test is not made; otherwise the block is
  left alone (\<^verbatim>\<open>continue\<close>) unless the flag is set.
\<close>

definition whitelist_admits :: "string list \<Rightarrow> DebugLoc option \<Rightarrow> bool" where
  "whitelist_admits wl Loc = (if wl \<noteq> [] then instrumentBlock wl Loc else True)"

subsection \<open>Constants and the random source\<close>

text \<open>
  Modelled from the spec: \<^verbatim>\<open>MAP_SIZE\<close> is a macro of \<^verbatim>\<open>../config.h\<close>, which is not
  among the sources. The spec fixes it: "Given a fixed \<^verbatim>\<open>MAP_SIZE = 65536\<close>", a power
  of two.
\<close>

definition MAP_SIZE :: nat where
  "MAP_SIZE = 65536"

text \<open>
  Modelled from the spec: the pseudo-random source that the macro \<^verbatim>\<open>R\<close> draws from is
  not among the sources. The spec calls it "a process-local pseudo-random source seeded
  once per run of the engine", with no promise about the values. Here it is the sequence
  of raw values still to come; a draw takes the first and leaves the rest.
\<close>

type_synonym rand_src = "nat \<Rightarrow> nat"

definition random :: "rand_src \<Rightarrow> nat \<times> rand_src" where
  "random rs = (rs 0, \<lambda>n. rs (Suc n))"

text \<open>
  Modelled from the spec: \<^verbatim>\<open>R(x)\<close> is a macro that is not among the sources. The spec
  says of its two uses that they draw "uniformly from \<open>[0, MAP_SIZE)\<close>" and "a uniform
  value in \<open>[0,100)\<close>": one raw draw, reduced into \<open>[0, x)\<close>.
\<close>

definition R :: "nat \<Rightarrow> rand_src \<Rightarrow> nat \<times> rand_src" where
  "R x rs = (case random rs of (raw, rs') \<Rightarrow> (raw mod x, rs'))"

subsection \<open>The inserted instructions\<close>

text \<open>
  The two globals the pass declares, \<^verbatim>\<open>__afl_area_ptr\<close> (a pointer to bytes) and
  \<^verbatim>\<open>__afl_prev_loc\<close> (16 bits), and the values the inserted code computes, named after
  the variables of \<^verbatim>\<open>runOnModule\<close> that hold them.
\<close>

datatype gvar = AFLMapPtr | AFLPrevLoc

datatype tmp = PrevLoc | PrevLocCasted | MapPtr | XorV | MapPtrIdx | Counter | Incr

datatype val = I8 "8 word" | I16 "16 word" | I64 "64 word" | Ptr "64 word"

datatype pointer = Global gvar | Reg tmp

datatype operand = Val tmp | ConstantInt val

text \<open>
  One constructor for each builder call used: \<^verbatim>\<open>CreateLoad\<close>, \<^verbatim>\<open>CreateZExt\<close> to 64
  bits, \<^verbatim>\<open>CreateXor\<close>, \<^verbatim>\<open>CreateGEP\<close>, \<^verbatim>\<open>CreateAdd\<close> and \<^verbatim>\<open>CreateStore\<close>. The
  first component of an instruction with a result names the result.
\<close>

datatype instr =
    Load tmp pointer
  | ZExt64 tmp tmp
  | Xor tmp tmp operand
  | GEP tmp tmp tmp
  | Add tmp tmp operand
  | Store operand pointer

text \<open>
  The sequence built for a block with location \<open>cur_loc\<close> (an \<^verbatim>\<open>unsigned int\<close>).
  \<^verbatim>\<open>ConstantInt::get(Int64Ty, cur_loc)\<close> widens the location to 64 bits and
  \<^verbatim>\<open>ConstantInt::get(Int16Ty, cur_loc >> 1)\<close> keeps the low 16 bits of the shifted one.
\<close>

definition CurLoc :: "32 word \<Rightarrow> 64 word" where
  "CurLoc cur_loc = ucast cur_loc"

definition NewPrevLoc :: "32 word \<Rightarrow> 16 word" where
  "NewPrevLoc cur_loc = ucast (drop_bit 1 cur_loc)"

definition afl_sequence :: "32 word \<Rightarrow> instr list" where
  "afl_sequence cur_loc =
     [ Load PrevLoc (Global AFLPrevLoc),
       ZExt64 PrevLocCasted PrevLoc,
       Load MapPtr (Global AFLMapPtr),
       Xor XorV PrevLocCasted (ConstantInt (I64 (CurLoc cur_loc))),
       GEP MapPtrIdx MapPtr XorV,
       Load Counter (Reg MapPtrIdx),
       Add Incr Counter (ConstantInt (I8 1)),
       Store (Val Incr) (Reg MapPtrIdx),
       Store (ConstantInt (I16 (NewPrevLoc cur_loc))) (Global AFLPrevLoc) ]"

subsection \<open>The pass over a module\<close>

text \<open>
  A basic block, as far as the pass looks at it: the debug location of the instruction at
  its first insertion point, and the instructions from that point on, before which the
  sequence is inserted. A function is a list of blocks, a module a list of functions.
\<close>

record BasicBlock =
  getDebugLoc :: "DebugLoc option"
  insns :: "instr list"


text \<open>
  The state the loops carry: the random source and the counter \<^verbatim>\<open>inst_blocks\<close>.
  The body of the inner loop returns the block, changed or not, and the new state. Its
  three ways out are the two \<^verbatim>\<open>continue\<close> statements and the end of the body.
\<close>

record pass_state =
  rand :: rand_src
  inst_blocks :: nat

text \<open>
  From \<^verbatim>\<open>if (R(100) >= inst_ratio) continue;\<close> to the end of the body: the density draw,
  then the location \<^verbatim>\<open>cur_loc = R(MAP_SIZE)\<close> and the insertion.
\<close>

definition density_stage ::
  "32 word \<Rightarrow> pass_state \<Rightarrow> BasicBlock \<Rightarrow> BasicBlock \<times> pass_state" where
  "density_stage inst_ratio st BB =
     (case R 100 (rand st) of (draw, rs1) \<Rightarrow>
        if draw \<ge> unat inst_ratio then (BB, st\<lparr>rand := rs1\<rparr>)
        else
          (case R MAP_SIZE rs1 of (loc, rs2) \<Rightarrow>
             (BB\<lparr>insns := afl_sequence (of_nat loc) @ insns BB\<rparr>,
              st\<lparr>rand := rs2, inst_blocks := inst_blocks st + 1\<rparr>)))"

definition instrument_block ::
  "string list \<Rightarrow> 32 word \<Rightarrow> pass_state \<Rightarrow> BasicBlock \<Rightarrow> BasicBlock \<times> pass_state" where
  "instrument_block wl inst_ratio st BB =
     (if \<not> whitelist_admits wl (getDebugLoc BB) then (BB, st)
      else density_stage inst_ratio st BB)"












subsection \<open>Running the inserted instructions\<close>

text \<open>
  The state of the instrumented program that the sequence touches: the two globals and the
  byte memory the bitmap lives in, addressed by 64-bit pointers. The globals are kept
  apart from the byte memory. The temporaries of one run of the sequence are a partial map.
\<close>

record machine =
  afl_area_ptr :: "64 word"
  afl_prev_loc :: "16 word"
  memory :: "64 word \<Rightarrow> 8 word"

type_synonym temps = "tmp \<rightharpoonup> val"

fun operand_val :: "temps \<Rightarrow> operand \<Rightarrow> val option" where
  "operand_val ts (Val t) = ts t"
| "operand_val ts (ConstantInt v) = Some v"

text \<open>
  One instruction. An instruction whose operands are missing or of the wrong type has no
  result (\<open>None\<close>). Addition and exclusive or are those of the operand width, so the byte
  counter wraps from 255 to 0.
\<close>

fun step :: "instr \<Rightarrow> machine \<times> temps \<Rightarrow> (machine \<times> temps) option" where
  "step (Load d (Global AFLPrevLoc)) (m, ts) = Some (m, ts(d \<mapsto> I16 (afl_prev_loc m)))"
| "step (Load d (Global AFLMapPtr)) (m, ts) = Some (m, ts(d \<mapsto> Ptr (afl_area_ptr m)))"
| "step (Load d (Reg p)) (m, ts) =
     (case ts p of Some (Ptr a) \<Rightarrow> Some (m, ts(d \<mapsto> I8 (memory m a))) | _ \<Rightarrow> None)"
| "step (ZExt64 d s) (m, ts) =
     (case ts s of
        Some (I8 w) \<Rightarrow> Some (m, ts(d \<mapsto> I64 (ucast w)))
      | Some (I16 w) \<Rightarrow> Some (m, ts(d \<mapsto> I64 (ucast w)))
      | _ \<Rightarrow> None)"
| "step (Xor d a b) (m, ts) =
     (case (ts a, operand_val ts b) of
        (Some (I64 x), Some (I64 y)) \<Rightarrow> Some (m, ts(d \<mapsto> I64 (x XOR y)))
      | (Some (I16 x), Some (I16 y)) \<Rightarrow> Some (m, ts(d \<mapsto> I16 (x XOR y)))
      | (Some (I8 x), Some (I8 y)) \<Rightarrow> Some (m, ts(d \<mapsto> I8 (x XOR y)))
      | _ \<Rightarrow> None)"
| "step (GEP d p i) (m, ts) =
     (case (ts p, ts i) of
        (Some (Ptr a), Some (I64 off)) \<Rightarrow> Some (m, ts(d \<mapsto> Ptr (a + off)))
      | _ \<Rightarrow> None)"
| "step (Add d a b) (m, ts) =
     (case (ts a, operand_val ts b) of
        (Some (I64 x), Some (I64 y)) \<Rightarrow> Some (m, ts(d \<mapsto> I64 (x + y)))
      | (Some (I16 x), Some (I16 y)) \<Rightarrow> Some (m, ts(d \<mapsto> I16 (x + y)))
      | (Some (I8 x), Some (I8 y)) \<Rightarrow> Some (m, ts(d \<mapsto> I8 (x + y)))
      | _ \<Rightarrow> None)"
| "step (Store v (Global AFLPrevLoc)) (m, ts) =
     (case operand_val ts v of
        Some (I16 w) \<Rightarrow> Some (m\<lparr>afl_prev_loc := w\<rparr>, ts)
      | _ \<Rightarrow> None)"
| "step (Store v (Global AFLMapPtr)) (m, ts) =
     (case operand_val ts v of
        Some (Ptr a) \<Rightarrow> Some (m\<lparr>afl_area_ptr := a\<rparr>, ts)
      | _ \<Rightarrow> None)"
| "step (Store v (Reg p)) (m, ts) =
     (case (operand_val ts v, ts p) of
        (Some (I8 w), Some (Ptr a)) \<Rightarrow> Some (m\<lparr>memory := (memory m)(a := w)\<rparr>, ts)
      | _ \<Rightarrow> None)"

fun run :: "instr list \<Rightarrow> machine \<times> temps \<Rightarrow> (machine \<times> temps) option" where
  "run [] c = Some c"
| "run (i # is) c = (case step i c of None \<Rightarrow> None | Some c' \<Rightarrow> run is c')"

text \<open>
  One execution of an instrumented block's sequence, from fresh temporaries; the result is
  the machine state it leaves.
\<close>

definition exec_sequence :: "32 word \<Rightarrow> machine \<Rightarrow> machine option" where
  "exec_sequence cur_loc m = map_option fst (run (afl_sequence cur_loc) (m, Map.empty))"

section \<open>Properties\<close>

subsection \<open>Reading lines\<close>

lemma getline_to_newline:
  "CHR 0x0A \<notin> set a \<Longrightarrow> getline (a @ CHR 0x0A # r) = Some (a, r)"
  by (simp add: getline_def takeWhile_append dropWhile_append)

lemma read_whitelist_keeps: "set acc \<subseteq> set (read_whitelist s acc)"
proof (induction s acc rule: read_whitelist.induct)
  case (1 s myWhitelist)
  show ?case
  proof (cases "getline s")
    case None
    then show ?thesis by (simp add: read_whitelist.simps [of s])
  next
    case (Some p)
    obtain line rest where p: "p = (line, rest)" by (cases p)
    from 1 [OF Some p [symmetric]] Some p show ?thesis
      by (simp add: read_whitelist.simps [of s])
  qed
qed

lemma read_blank_first: "[] \<in> set (read_whitelist (CHR 0x0A # post) acc)"
proof -
  have "getline (CHR 0x0A # post) = Some ([], post)"
    using getline_to_newline [of "[]" post] by simp
  then have "read_whitelist (CHR 0x0A # post) acc = read_whitelist post (acc @ [[]])"
    by (simp add: read_whitelist.simps [of "CHR 0x0A # post"])
  moreover have "[] \<in> set (acc @ [[]])" by simp
  ultimately show ?thesis using read_whitelist_keeps [of "acc @ [[]]" post] by auto
qed

lemma read_blank_inner:
  "[] \<in> set (read_whitelist (pre @ CHR 0x0A # CHR 0x0A # post) acc)"
proof (induction "length pre" arbitrary: pre acc rule: less_induct)
  case less
  show ?case
  proof (cases "CHR 0x0A \<in> set pre")
    case False
    then have "getline (pre @ CHR 0x0A # CHR 0x0A # post) = Some (pre, CHR 0x0A # post)"
      by (rule getline_to_newline)
    then have "read_whitelist (pre @ CHR 0x0A # CHR 0x0A # post) acc
                 = read_whitelist (CHR 0x0A # post) (acc @ [pre])"
      by (simp add: read_whitelist.simps [of "pre @ CHR 0x0A # CHR 0x0A # post"])
    then show ?thesis by (simp add: read_blank_first)
  next
    case True
    then obtain a b where ab: "pre = a @ CHR 0x0A # b" and a: "CHR 0x0A \<notin> set a"
      by (auto dest: split_list_first)
    have "getline (a @ CHR 0x0A # (b @ CHR 0x0A # CHR 0x0A # post))
            = Some (a, b @ CHR 0x0A # CHR 0x0A # post)"
      using a by (rule getline_to_newline)
    then have "read_whitelist (pre @ CHR 0x0A # CHR 0x0A # post) acc
                 = read_whitelist (b @ CHR 0x0A # CHR 0x0A # post) (acc @ [a])"
      by (simp add: ab read_whitelist.simps [of "a @ CHR 0x0A # b @ CHR 0x0A # CHR 0x0A # post"])
    moreover have "length b < length pre" by (simp add: ab)
    ultimately show ?thesis using less by simp
  qed
qed

lemma read_blank_line:
  assumes "pre = [] \<or> last pre = CHR 0x0A"
  shows "[] \<in> set (read_whitelist (pre @ CHR 0x0A # post) [])"
proof (cases "pre = []")
  case True
  then show ?thesis by (simp add: read_blank_first)
next
  case False
  with assms have "pre = butlast pre @ [CHR 0x0A]"
    by (metis append_butlast_last_id)
  then have "pre @ CHR 0x0A # post = butlast pre @ CHR 0x0A # CHR 0x0A # post"
    by (metis append_Cons append_Nil append_assoc)
  then show ?thesis by (simp only: read_blank_inner)
qed

subsection \<open>Matching file names\<close>

lemma ends_in_suffix: "ends_in f it \<longleftrightarrow> suffix it f"
proof
  assume e: "ends_in f it"
  then have "drop (length f - length it) f = it" by (simp add: ends_in_def)
  then have "f = take (length f - length it) f @ it"
    by (metis append_take_drop_id)
  then show "suffix it f" by (rule suffixI)
next
  assume "suffix it f"
  then obtain zs where "f = zs @ it" by (auto simp: suffix_def)
  then show "ends_in f it" by (simp add: ends_in_def)
qed

lemma whitelist_loop_iff: "whitelist_loop wl f \<longleftrightarrow> (\<exists>s\<in>set wl. suffix s f)"
  by (induction wl) (auto simp: ends_in_suffix)

subsection \<open>Widths\<close>

lemma unat_CurLoc: "unat (CurLoc c) = unat c"
proof -
  have "unat c < 2 ^ 32" using unsigned_less [of c, where 'a = nat] by simp
  also have "\<dots> \<le> (2::nat) ^ 64" by simp
  finally have "take_bit 64 (unat c) = unat c" by (simp add: take_bit_nat_eq_self_iff)
  then show ?thesis by (simp add: CurLoc_def unsigned_ucast_eq)
qed

lemma unat_widen_prev_loc: "unat (ucast (p :: 16 word) :: 64 word) = unat p"
proof -
  have "unat p < 2 ^ 16" using unsigned_less [of p, where 'a = nat] by simp
  also have "\<dots> \<le> (2::nat) ^ 64" by simp
  finally have "take_bit 64 (unat p) = unat p" by (simp add: take_bit_nat_eq_self_iff)
  then show ?thesis by (simp add: unsigned_ucast_eq)
qed

lemma unat_edge: "unat ((ucast (p :: 16 word) :: 64 word) XOR CurLoc c) = unat p XOR unat c"
  by (simp add: unsigned_xor_eq unat_CurLoc unat_widen_prev_loc)

lemma edge_below_power:
  fixes c :: "32 word" and p :: "16 word"
  assumes c: "unat c < 2 ^ k" and p: "unat p < 2 ^ k"
  shows "unat ((ucast p :: 64 word) XOR CurLoc c) < 2 ^ k"
proof -
  have e: "take_bit k (unat p XOR unat c) = unat p XOR unat c"
    using c p by (simp add: take_bit_xor take_bit_nat_eq_self)
  have "take_bit k (unat p XOR unat c) < 2 ^ k"
    by (rule take_bit_nat_less_exp)
  then have "unat p XOR unat c < 2 ^ k"
    unfolding e .
  then show ?thesis by (simp only: unat_edge)
qed

lemma unat_NewPrevLoc: "unat (NewPrevLoc cur_loc) = (unat cur_loc div 2) mod 65536"
proof -
  have "unat (drop_bit 1 cur_loc) = unat cur_loc div 2"
    by (simp only: unat_drop_bit_eq) (simp add: drop_bit_eq_div)
  then show ?thesis
    by (simp only: NewPrevLoc_def unsigned_ucast_eq take_bit_eq_mod) simp
qed

lemma NewPrevLoc_exact:
  "unat cur_loc < MAP_SIZE \<Longrightarrow> unat (NewPrevLoc cur_loc) = unat cur_loc div 2"
  by (simp add: unat_NewPrevLoc MAP_SIZE_def)

lemma self_edge_nonzero:
  assumes "drop_bit 1 cur_loc \<noteq> cur_loc"
  shows "(ucast (NewPrevLoc cur_loc) :: 64 word) XOR CurLoc cur_loc \<noteq> 0"
proof
  assume "(ucast (NewPrevLoc cur_loc) :: 64 word) XOR CurLoc cur_loc = 0"
  then have "unat ((ucast (NewPrevLoc cur_loc) :: 64 word) XOR CurLoc cur_loc) = 0" by simp
  then have "unat (NewPrevLoc cur_loc) XOR unat cur_loc = 0"
    by (simp only: unat_edge)
  then have "unat (NewPrevLoc cur_loc) = unat cur_loc"
    by (metis xor_self_eq xor.left_neutral xor.assoc)
  then have "unat cur_loc = (unat cur_loc div 2) mod 65536" by (simp add: unat_NewPrevLoc)
  moreover have "(unat cur_loc div 2) mod 65536 \<le> unat cur_loc div 2" by simp
  ultimately have "unat cur_loc = 0" by linarith
  then have "cur_loc = 0" by (simp add: unat_eq_0)
  with assms show False by simp
qed

subsection \<open>The sequence and the draws\<close>

lemma exec_sequence_eq:
  "exec_sequence cur_loc m =
     Some (m\<lparr>memory := (memory m)
                 (afl_area_ptr m + (ucast (afl_prev_loc m) XOR CurLoc cur_loc) :=
                    memory m (afl_area_ptr m + (ucast (afl_prev_loc m) XOR CurLoc cur_loc)) + 1),
             afl_prev_loc := NewPrevLoc cur_loc\<rparr>)"
  by (simp add: exec_sequence_def afl_sequence_def)

lemma R_below: "0 < x \<Longrightarrow> fst (R x rs) < x"
  by (simp add: R_def random_def)

lemma density_stage_cases:
  "fst (density_stage inst_ratio st BB) = BB \<or>
   (\<exists>cur_loc. unat cur_loc < MAP_SIZE \<and>
      fst (density_stage inst_ratio st BB) = BB\<lparr>insns := afl_sequence cur_loc @ insns BB\<rparr>)"
proof -
  obtain draw rs1 where d: "R 100 (rand st) = (draw, rs1)" by (cases "R 100 (rand st)")
  obtain loc rs2 where l: "R MAP_SIZE rs1 = (loc, rs2)" by (cases "R MAP_SIZE rs1")
  have "fst (R MAP_SIZE rs1) < MAP_SIZE" by (rule R_below) (simp add: MAP_SIZE_def)
  with l have lt: "loc < MAP_SIZE" by simp
  then have "take_bit 32 loc = loc"
    by (simp add: MAP_SIZE_def take_bit_nat_eq_self)
  then have "unat (of_nat loc :: 32 word) = loc"
    by (simp add: unsigned_of_nat)
  with lt have "unat (of_nat loc :: 32 word) < MAP_SIZE" by simp
  then show ?thesis
    using d l by (auto simp: density_stage_def)
qed






subsection \<open>Reading the ratio\<close>





subsection \<open>What the pass returns with the ratio 100\<close>




subsection \<open>The claims\<close>

text \<open>
  C1. The claim: under a non-empty whitelist, a block for which no file name can be
  resolved (unknown debug location, or both file names empty) is eligible and goes on to
  the density stage. The pass does the opposite. The flag \<^verbatim>\<open>instrumentBlock\<close> starts as
  false and only a matching entry sets it, so with the whitelist \<open>foo.c\<close> a block with an
  unknown location, and one whose two file names are empty, are both left as they are and
  no draw is made, although the comment above the test says "For now, just instrument the
  block if we are not able to determine our location".
\<close>

theorem unknown_location_is_skipped:
  "\<not> whitelist_admits [''foo.c''] None
   \<and> \<not> whitelist_admits [''foo.c'']
         (Some \<lparr>cDILoc = \<lparr>getFilename = [], getLineNumber = 0\<rparr>,
                oDILoc = \<lparr>getFilename = [], getLineNumber = 0\<rparr>\<rparr>)
   \<and> insns (fst (instrument_block [''foo.c''] 100 \<lparr>rand = (\<lambda>n. 0), inst_blocks = 0\<rparr>
        \<lparr>getDebugLoc = None, insns = []\<rparr>)) = []
   \<and> inst_blocks (snd (instrument_block [''foo.c''] 100 \<lparr>rand = (\<lambda>n. 0), inst_blocks = 0\<rparr>
        \<lparr>getDebugLoc = None, insns = []\<rparr>)) = 0"
  by (simp add: whitelist_admits_def instrumentBlock_def instFilename_def instrument_block_def)

text \<open>
  C2, as the claim states it: the block with \<open>cur_loc = 300\<close>, run while the register holds
  50, increments cell 350. It does not: with the bitmap at address 0 and all cells zero,
  cell 350 is still zero afterwards and cell 286 is one; the register is left at 150.
\<close>

theorem edge_300_after_100_counterexample:
  "map_option (\<lambda>m'. (memory m' 350, memory m' 286, afl_prev_loc m'))
     (exec_sequence 300 \<lparr>afl_area_ptr = 0, afl_prev_loc = 50, memory = (\<lambda>a. 0)\<rparr>)
   = Some (0, 1, 150)"
  by (simp add: exec_sequence_eq CurLoc_def NewPrevLoc_def)

text \<open>
  C2, amended. For every location \<open>cur_loc\<close> and every state \<open>m\<close> of the program, with
  register value \<open>afl_prev_loc m\<close> and bitmap base \<open>afl_area_ptr m\<close>, the inserted sequence
  runs to the end, adds one to the byte at offset \<open>cur_loc XOR\<close> the zero-extended
  register (wrapping modulo 256) and stores the low 16 bits of \<open>cur_loc >> 1\<close> in the
  register, which is \<open>cur_loc >> 1\<close> itself for every location below \<open>MAP_SIZE\<close>. The
  block with location 300, run while the register holds 50 (left by a block with location
  100), increments cell 286, which is 300 XOR 50, and leaves 150 in the register.
\<close>

theorem inserted_sequence_effect:
  "exec_sequence cur_loc m =
     Some (m\<lparr>memory := (memory m)
                 (afl_area_ptr m + (ucast (afl_prev_loc m) XOR CurLoc cur_loc) :=
                    memory m (afl_area_ptr m + (ucast (afl_prev_loc m) XOR CurLoc cur_loc)) + 1),
             afl_prev_loc := NewPrevLoc cur_loc\<rparr>)
   \<and> unat ((ucast (afl_prev_loc m) :: 64 word) XOR CurLoc cur_loc)
       = unat (afl_prev_loc m) XOR unat cur_loc
   \<and> unat (memory m a + 1) = (unat (memory m a) + 1) mod 256
   \<and> (unat cur_loc < MAP_SIZE \<longrightarrow> unat (NewPrevLoc cur_loc) = unat cur_loc div 2)
   \<and> (ucast (50 :: 16 word) :: 64 word) XOR CurLoc 300 = 286
   \<and> NewPrevLoc 300 = 150 \<and> NewPrevLoc 100 = 50"
proof -
  have "unat (memory m a + 1) = (unat (memory m a) + 1) mod 256"
    by (simp add: unat_word_ariths)
  moreover have "(ucast (50 :: 16 word) :: 64 word) XOR CurLoc 300 = 286"
    by (simp add: CurLoc_def)
  moreover have "NewPrevLoc 300 = 150" "NewPrevLoc 100 = 50"
    by (simp_all add: NewPrevLoc_def)
  moreover have "unat cur_loc < MAP_SIZE \<longrightarrow> unat (NewPrevLoc cur_loc) = unat cur_loc div 2"
    by (simp add: NewPrevLoc_exact)
  ultimately show ?thesis
    by (simp only: exec_sequence_eq unat_edge simp_thms)
qed

theorem inserted_sequence_effect_witness:
  "unat (300 :: 32 word) < MAP_SIZE
   \<and> map_option (\<lambda>m'. (memory m' 286, afl_prev_loc m'))
       (exec_sequence 300 \<lparr>afl_area_ptr = 0, afl_prev_loc = 50, memory = (\<lambda>a. 0)\<rparr>)
     = Some (1, 150)
   \<and> unat (NewPrevLoc 300) = 150"
  using inserted_sequence_effect
    [of 300 "\<lparr>afl_area_ptr = 0, afl_prev_loc = 50, memory = (\<lambda>a. 0)\<rparr>" 0]
  by (simp add: MAP_SIZE_def CurLoc_def)


text \<open>
  C3, as the claim states it: the block with \<open>cur_loc = 300\<close>, run twice in a row,
  increments cell 450 the second time. It does not: from a register of 0, with the bitmap
  at address 0 and all cells zero, after the two runs cell 450 is still zero and cell 442
  is one.
\<close>

theorem self_loop_300_counterexample:
  "map_option (\<lambda>m2. (memory m2 450, memory m2 442))
     (Option.bind (exec_sequence 300 \<lparr>afl_area_ptr = 0, afl_prev_loc = 0, memory = (\<lambda>a. 0)\<rparr>)
        (exec_sequence 300))
   = Some (0, 1)"
  by (simp add: exec_sequence_eq CurLoc_def NewPrevLoc_def)

text \<open>
  C3, amended. When a block whose location \<open>cur_loc\<close> differs from \<open>cur_loc >> 1\<close> has just
  run and runs again, the second run adds one to the byte at an offset that is not 0, the
  offset \<open>cur_loc XOR\<close> the register value the first run left, and changes nothing else;
  for the location 300 that offset is 300 XOR 150 = 442.
\<close>

theorem self_loop_edge:
  assumes "drop_bit 1 cur_loc \<noteq> cur_loc"
    and "exec_sequence cur_loc m = Some m1"
  shows "(ucast (NewPrevLoc cur_loc) :: 64 word) XOR CurLoc cur_loc \<noteq> 0
   \<and> exec_sequence cur_loc m1 =
       Some (m1\<lparr>memory := (memory m1)
                  (afl_area_ptr m1 + (ucast (NewPrevLoc cur_loc) XOR CurLoc cur_loc) :=
                     memory m1 (afl_area_ptr m1 + (ucast (NewPrevLoc cur_loc) XOR CurLoc cur_loc)) + 1)\<rparr>)
   \<and> (ucast (NewPrevLoc 300) :: 64 word) XOR CurLoc 300 = 442"
proof -
  from assms(2) have p: "afl_prev_loc m1 = NewPrevLoc cur_loc"
    by (auto simp: exec_sequence_eq)
  have "(ucast (NewPrevLoc 300) :: 64 word) XOR CurLoc 300 = 442"
    by (simp add: CurLoc_def NewPrevLoc_def)
  moreover have "(ucast (NewPrevLoc cur_loc) :: 64 word) XOR CurLoc cur_loc \<noteq> 0"
    using assms(1) by (rule self_edge_nonzero)
  moreover have "exec_sequence cur_loc m1 =
       Some (m1\<lparr>memory := (memory m1)
                  (afl_area_ptr m1 + (ucast (NewPrevLoc cur_loc) XOR CurLoc cur_loc) :=
                     memory m1 (afl_area_ptr m1 + (ucast (NewPrevLoc cur_loc) XOR CurLoc cur_loc)) + 1)\<rparr>)"
    using p by (simp add: exec_sequence_eq)
  ultimately show ?thesis by simp
qed

theorem self_loop_edge_witness:
  "drop_bit 1 (300 :: 32 word) \<noteq> 300
   \<and> map_option (\<lambda>m2. (memory m2 442, memory m2 0))
       (Option.bind (exec_sequence 300 \<lparr>afl_area_ptr = 0, afl_prev_loc = 0, memory = (\<lambda>a. 0)\<rparr>)
          (exec_sequence 300))
     = Some (1, 0)"
proof -
  let ?m = "\<lparr>afl_area_ptr = 0, afl_prev_loc = 0, memory = (\<lambda>a. 0 :: 8 word)\<rparr>"
  let ?m1 = "\<lparr>afl_area_ptr = 0, afl_prev_loc = 150, memory = (\<lambda>a. 0 :: 8 word)(300 := 1)\<rparr>"
  have d: "drop_bit 1 (300 :: 32 word) \<noteq> 300" by simp
  have e: "exec_sequence 300 ?m = Some ?m1"
    by (simp add: exec_sequence_eq CurLoc_def NewPrevLoc_def)
  from self_loop_edge [OF d e] e d show ?thesis by simp
qed

text \<open>
  C4. A block that the density stage changes gets a location below \<open>MAP_SIZE\<close>; for every
  power of two \<open>2 ^ k\<close>, a location and a register value below it give an edge offset
  below it, which holds for \<open>MAP_SIZE = 2 ^ 16\<close>; and for a location below \<open>MAP_SIZE\<close>
  the 16-bit constant stored in the register is \<open>cur_loc >> 1\<close> with no bit lost.
\<close>

theorem locations_in_range:
  fixes c :: "32 word" and p :: "16 word"
  shows "(fst (density_stage inst_ratio st BB) = BB \<or>
      (\<exists>cur_loc. unat cur_loc < MAP_SIZE \<and>
         fst (density_stage inst_ratio st BB) = BB\<lparr>insns := afl_sequence cur_loc @ insns BB\<rparr>))
   \<and> (unat c < 2 ^ k \<and> unat p < 2 ^ k \<longrightarrow> unat ((ucast p :: 64 word) XOR CurLoc c) < 2 ^ k)
   \<and> MAP_SIZE = 2 ^ 16
   \<and> (unat c < MAP_SIZE \<longrightarrow>
        unat (NewPrevLoc c) = unat c div 2 \<and> unat c div 2 < 2 ^ 16)"
proof -
  have "unat c div 2 < 2 ^ 16" if "unat c < MAP_SIZE"
    using that unfolding MAP_SIZE_def by simp
  then have "unat c < MAP_SIZE \<longrightarrow> unat (NewPrevLoc c) = unat c div 2 \<and> unat c div 2 < 2 ^ 16"
    by (simp add: NewPrevLoc_exact)
  moreover have "MAP_SIZE = 2 ^ 16" by (simp add: MAP_SIZE_def)
  moreover have "unat c < 2 ^ k \<and> unat p < 2 ^ k
      \<longrightarrow> unat ((ucast p :: 64 word) XOR CurLoc c) < 2 ^ k"
    by (simp add: edge_below_power)
  ultimately show ?thesis
    using density_stage_cases [of inst_ratio st BB] by blast
qed

theorem locations_in_range_witness:
  "unat (300 :: 32 word) < 2 ^ 16 \<and> unat (50 :: 16 word) < 2 ^ 16
   \<and> unat ((ucast (50 :: 16 word) :: 64 word) XOR CurLoc 300) < 2 ^ 16
   \<and> unat (300 :: 32 word) < MAP_SIZE
   \<and> unat (NewPrevLoc 300) = 150"
  using locations_in_range [of 100 "\<lparr>rand = (\<lambda>n. 0), inst_blocks = 0\<rparr>"
      "\<lparr>getDebugLoc = None, insns = []\<rparr>" 300 16 50]
  by (simp add: MAP_SIZE_def)



text \<open>
  C6. Under a non-empty whitelist, a block whose resolved file name \<open>f\<close> is not empty is
  admitted exactly when some entry of the whitelist is a suffix of \<open>f\<close>. The comparison
  looks at characters only, so the entry \<open>oo.c\<close> matches the file name \<open>foo.c\<close>, and an
  entry longer than \<open>f\<close> never matches.
\<close>

theorem whitelist_is_suffix_match:
  assumes "wl \<noteq> []" and "instFilename l = f" and "f \<noteq> []"
  shows "(whitelist_admits wl (Some l) \<longleftrightarrow> (\<exists>s\<in>set wl. suffix s f))
   \<and> ends_in ''foo.c'' ''oo.c''
   \<and> (\<forall>it. length f < length it \<longrightarrow> \<not> ends_in f it)"
proof -
  have "whitelist_admits wl (Some l) \<longleftrightarrow> (\<exists>s\<in>set wl. suffix s f)"
    using assms by (simp add: whitelist_admits_def instrumentBlock_def whitelist_loop_iff)
  moreover have "ends_in ''foo.c'' ''oo.c''"
    by (simp add: ends_in_def)
  moreover have "\<forall>it. length f < length it \<longrightarrow> \<not> ends_in f it"
    by (simp add: ends_in_def)
  ultimately show ?thesis by simp
qed

theorem whitelist_is_suffix_match_witness:
  "[''bar.c'', ''oo.c''] \<noteq> []
   \<and> instFilename \<lparr>cDILoc = \<lparr>getFilename = ''src/foo.c'', getLineNumber = 7\<rparr>,
                    oDILoc = \<lparr>getFilename = [], getLineNumber = 0\<rparr>\<rparr> = ''src/foo.c''
   \<and> whitelist_admits [''bar.c'', ''oo.c'']
       (Some \<lparr>cDILoc = \<lparr>getFilename = ''src/foo.c'', getLineNumber = 7\<rparr>,
              oDILoc = \<lparr>getFilename = [], getLineNumber = 0\<rparr>\<rparr>)
   \<and> suffix ''oo.c'' ''src/foo.c''
   \<and> \<not> ends_in ''src/foo.c'' ''lib/src/foo.c''"
proof -
  let ?l = "\<lparr>cDILoc = \<lparr>getFilename = ''src/foo.c'', getLineNumber = 7\<rparr>,
            oDILoc = \<lparr>getFilename = [], getLineNumber = 0\<rparr>\<rparr>"
  have w: "[''bar.c'', ''oo.c''] \<noteq> []" by simp
  have f: "instFilename ?l = ''src/foo.c''" by (simp add: instFilename_def)
  have n: "''src/foo.c'' \<noteq> []" by simp
  have s: "suffix ''oo.c'' ''src/foo.c''"
    by (rule suffixI [of _ "''src/f''"]) simp
  from whitelist_is_suffix_match [OF w f n] s f show ?thesis by auto
qed

text \<open>
  C7. With an empty whitelist the filter admits every block, whatever its debug location:
  the body of the loop is then just the density stage. The whitelist is empty when
  \<^verbatim>\<open>AFL_INST_WHITELIST\<close> is not set.
\<close>

theorem empty_whitelist_admits_every_block:
  "whitelist_admits [] Loc
   \<and> instrument_block [] inst_ratio st BB = density_stage inst_ratio st BB
   \<and> (env ''AFL_INST_WHITELIST'' = None \<longrightarrow> AFLCoverage env fs = Inr \<lparr>myWhitelist = []\<rparr>)"
  by (simp add: whitelist_admits_def instrument_block_def AFLCoverage_def)

theorem empty_whitelist_admits_every_block_witness:
  "AFLCoverage Map.empty Map.empty = Inr \<lparr>myWhitelist = []\<rparr>
   \<and> whitelist_admits [] None
   \<and> instrument_block [] 100 \<lparr>rand = (\<lambda>n. 0), inst_blocks = 0\<rparr> \<lparr>getDebugLoc = None, insns = []\<rparr>
       = density_stage 100 \<lparr>rand = (\<lambda>n. 0), inst_blocks = 0\<rparr> \<lparr>getDebugLoc = None, insns = []\<rparr>"
  using empty_whitelist_admits_every_block
    [of None 100 "\<lparr>rand = (\<lambda>n. 0), inst_blocks = 0\<rparr>" "\<lparr>getDebugLoc = None, insns = []\<rparr>"
        Map.empty Map.empty]
  by simp




text \<open>
  C9. When \<^verbatim>\<open>AFL_INST_WHITELIST\<close> names a file that cannot be opened, the constructor
  ends with the fatal error: no pass object is built, with or without a whitelist.
\<close>

theorem unreadable_whitelist_is_fatal:
  assumes "env ''AFL_INST_WHITELIST'' = Some path" and "fs path = None"
  shows "AFLCoverage env fs = Inl UnableToOpenWhitelist
   \<and> (\<forall>obj. AFLCoverage env fs \<noteq> Inr obj)"
  using assms by (simp add: AFLCoverage_def)

theorem unreadable_whitelist_is_fatal_witness:
  "[''AFL_INST_WHITELIST'' \<mapsto> ''/nonexistent''] ''AFL_INST_WHITELIST'' = Some ''/nonexistent''
   \<and> [''wl.txt'' \<mapsto> ''foo.c''] ''/nonexistent'' = None
   \<and> AFLCoverage [''AFL_INST_WHITELIST'' \<mapsto> ''/nonexistent''] [''wl.txt'' \<mapsto> ''foo.c'']
       = Inl UnableToOpenWhitelist"
proof -
  let ?env = "[''AFL_INST_WHITELIST'' \<mapsto> ''/nonexistent'']"
  let ?fs = "[''wl.txt'' \<mapsto> ''foo.c'']"
  have e: "?env ''AFL_INST_WHITELIST'' = Some ''/nonexistent''" by simp
  have f: "?fs ''/nonexistent'' = None" by simp
  from unreadable_whitelist_is_fatal
    [where env = ?env and path = "''/nonexistent''" and fs = ?fs, OF e f] e f
  show ?thesis by simp
qed

text \<open>
  C10. When the whitelist file has an empty line (a newline at the very start of the file
  or right after another newline), the constructor succeeds, the empty string is one of
  the entries it loads, and then every block whose resolved file name is not empty is
  admitted, whatever the other entries are.
\<close>

theorem blank_line_admits_every_resolved_block:
  assumes "env ''AFL_INST_WHITELIST'' = Some path"
    and "fs path = Some (pre @ CHR 0x0A # post)"
    and "pre = [] \<or> last pre = CHR 0x0A"
  shows "\<exists>obj. AFLCoverage env fs = Inr obj
     \<and> [] \<in> set (myWhitelist obj)
     \<and> (\<forall>l. instFilename l \<noteq> [] \<longrightarrow> whitelist_admits (myWhitelist obj) (Some l))"
proof -
  let ?wl = "read_whitelist (pre @ CHR 0x0A # post) []"
  have c: "AFLCoverage env fs = Inr \<lparr>myWhitelist = ?wl\<rparr>"
    using assms(1,2) by (simp add: AFLCoverage_def)
  have b: "[] \<in> set ?wl"
    using assms(3) by (rule read_blank_line)
  then have ne: "?wl \<noteq> []" by auto
  have "whitelist_admits ?wl (Some l)" if "instFilename l \<noteq> []" for l
  proof -
    have "suffix [] (instFilename l)" by simp
    with b have "whitelist_loop ?wl (instFilename l)"
      unfolding whitelist_loop_iff by blast
    with that ne show ?thesis
      by (simp add: whitelist_admits_def instrumentBlock_def)
  qed
  with c b show ?thesis by simp
qed

theorem blank_line_admits_every_resolved_block_witness:
  "AFLCoverage [''AFL_INST_WHITELIST'' \<mapsto> ''wl.txt'']
      [''wl.txt'' \<mapsto> ''bar.c'' @ [CHR 0x0A, CHR 0x0A] @ ''baz.c'' @ [CHR 0x0A]]
     = Inr \<lparr>myWhitelist = [''bar.c'', [], ''baz.c'']\<rparr>
   \<and> whitelist_admits [''bar.c'', [], ''baz.c'']
       (Some \<lparr>cDILoc = \<lparr>getFilename = ''src/foo.c'', getLineNumber = 7\<rparr>,
              oDILoc = \<lparr>getFilename = [], getLineNumber = 0\<rparr>\<rparr>)
   \<and> \<not> whitelist_admits [''bar.c'', ''baz.c'']
       (Some \<lparr>cDILoc = \<lparr>getFilename = ''src/foo.c'', getLineNumber = 7\<rparr>,
              oDILoc = \<lparr>getFilename = [], getLineNumber = 0\<rparr>\<rparr>)"
proof -
  let ?env = "[''AFL_INST_WHITELIST'' \<mapsto> ''wl.txt'']"
  let ?pre = "''bar.c'' @ [CHR 0x0A]"
  let ?post = "''baz.c'' @ [CHR 0x0A]"
  let ?fs = "[''wl.txt'' \<mapsto> ?pre @ CHR 0x0A # ?post]"
  let ?l = "\<lparr>cDILoc = \<lparr>getFilename = ''src/foo.c'', getLineNumber = 7\<rparr>,
            oDILoc = \<lparr>getFilename = [], getLineNumber = 0\<rparr>\<rparr>"
  have e: "?env ''AFL_INST_WHITELIST'' = Some ''wl.txt''" by simp
  have f: "?fs ''wl.txt'' = Some (?pre @ CHR 0x0A # ?post)" by simp
  have p: "?pre = [] \<or> last ?pre = CHR 0x0A" by simp
  have r: "read_whitelist (?pre @ CHR 0x0A # ?post) [] = [''bar.c'', [], ''baz.c'']"
    by (simp add: read_whitelist.simps getline_def)
  have c: "AFLCoverage ?env ?fs = Inr \<lparr>myWhitelist = [''bar.c'', [], ''baz.c'']\<rparr>"
    using r by (simp add: AFLCoverage_def)
  have n: "instFilename ?l \<noteq> []" by (simp add: instFilename_def)
  have "\<not> whitelist_admits [''bar.c'', ''baz.c''] (Some ?l)"
    by (simp add: whitelist_admits_def instrumentBlock_def instFilename_def ends_in_def)
  with blank_line_admits_every_resolved_block
    [where env = ?env and path = "''wl.txt''" and fs = ?fs and pre = ?pre and post = ?post,
     OF e f p] c n
  show ?thesis by auto
qed

end
